theory Spec2Isabelle
  imports Complex_Main "HOL-Library.Multiset" "HOL-Library.Log_Nat" "HOL-Library.Product_Lexorder"
begin

section \<open>Highly variable genes: the selection pipeline of \<open>_highly_variable_genes.py\<close>\<close>

subsection \<open>Floating-point values\<close>

text \<open>
  The arrays of the module hold \<open>float64\<close> values. What the selection code does with them
  is compare them, test them for NaN and replace NaN, so a value is modelled by what it
  denotes: NaN, or a number, which is \<open>-inf\<close>, \<open>+inf\<close> or a real. The numbers are
  linearly ordered; every comparison with NaN is false, as in IEEE 754.
\<close>

datatype xreal = NInf | Fin real | PInf

instantiation xreal :: linorder
begin

fun less_eq_xreal :: "xreal \<Rightarrow> xreal \<Rightarrow> bool" where
  "less_eq_xreal NInf y = True"
| "less_eq_xreal (Fin a) NInf = False"
| "less_eq_xreal (Fin a) (Fin b) = (a \<le> b)"
| "less_eq_xreal (Fin a) PInf = True"
| "less_eq_xreal PInf NInf = False"
| "less_eq_xreal PInf (Fin b) = False"
| "less_eq_xreal PInf PInf = True"

definition less_xreal :: "xreal \<Rightarrow> xreal \<Rightarrow> bool" where
  "less_xreal x y = (x \<le> y \<and> \<not> y \<le> x)"

instance
proof
  fix x y z :: xreal
  show "(x < y) = (x \<le> y \<and> \<not> y \<le> x)"
    by (simp add: less_xreal_def)
  show "x \<le> x"
    by (cases x) simp_all
  show "x \<le> y \<Longrightarrow> y \<le> z \<Longrightarrow> x \<le> z"
    by (cases x; cases y; cases z) simp_all
  show "x \<le> y \<Longrightarrow> y \<le> x \<Longrightarrow> x = y"
    by (cases x; cases y) simp_all
  show "x \<le> y \<or> y \<le> x"
    by (cases x; cases y) auto
qed

end

datatype float64 = NaN | Num xreal

text \<open>\<open>np.isnan\<close>.\<close>

fun isnan :: "float64 \<Rightarrow> bool" where
  "isnan NaN = True"
| "isnan (Num v) = False"

text \<open>The comparisons \<open>a > b\<close>, \<open>a < b\<close> and \<open>a >= b\<close> of two \<open>float64\<close> values.\<close>

fun fgt :: "float64 \<Rightarrow> float64 \<Rightarrow> bool" where
  "fgt (Num a) (Num b) = (b < a)"
| "fgt a b = False"

fun flt :: "float64 \<Rightarrow> float64 \<Rightarrow> bool" where
  "flt (Num a) (Num b) = (a < b)"
| "flt a b = False"

fun fge :: "float64 \<Rightarrow> float64 \<Rightarrow> bool" where
  "fge (Num a) (Num b) = (b \<le> a)"
| "fge a b = False"

text \<open>The largest finite \<open>float64\<close>, \<open>(2 - 2^-52) * 2^1023\<close>.\<close>

definition float_max :: real where
  "float_max = (2 ^ 53 - 1) * 2 ^ 971"

text \<open>
  \<open>np.nan_to_num\<close> with its default arguments: NaN becomes 0, \<open>+inf\<close> the largest finite
  value and \<open>-inf\<close> the most negative one.
\<close>

fun nan_to_num :: "float64 \<Rightarrow> float64" where
  "nan_to_num NaN = Num (Fin 0)"
| "nan_to_num (Num PInf) = Num (Fin float_max)"
| "nan_to_num (Num NInf) = Num (Fin (- float_max))"
| "nan_to_num (Num (Fin r)) = Num (Fin r)"

text \<open>\<open>x[~np.isnan(x)]\<close>: the numbers of an array, in order.\<close>

fun dropna :: "float64 list \<Rightarrow> xreal list" where
  "dropna [] = []"
| "dropna (NaN # xs) = dropna xs"
| "dropna (Num v # xs) = v # dropna xs"

text \<open>\<open>x[np.isnan(x)] = 0\<close>, the array after the assignment.\<close>

definition zero_nans :: "float64 list \<Rightarrow> float64 list" where
  "zero_nans x = map (\<lambda>d. if isnan d then Num (Fin 0) else d) x"

subsection \<open>Cutoffs\<close>

text \<open>
  The dataclass \<open>_Cutoffs\<close>. A cutoff is either such a record or the \<open>int\<close>
  \<open>n_top_genes\<close>; the code tells them apart with \<open>isinstance\<close>.
\<close>

record cutoffs =
  min_disp :: float64
  max_disp :: float64
  min_mean :: float64
  max_mean :: float64

datatype cutoff = Cutoffs cutoffs | NTopGenes int

text \<open>
  \<open>_Cutoffs.in_bounds\<close> is elementwise over two per-gene arrays; \<open>in_bounds1\<close> is what it
  computes for one gene. The two arrays are columns of the same frame, one entry per gene.
\<close>

definition in_bounds1 :: "cutoffs \<Rightarrow> float64 \<Rightarrow> float64 \<Rightarrow> bool" where
  "in_bounds1 c mean dispersion_norm =
     (fgt mean (min_mean c) \<and> flt mean (max_mean c)
      \<and> fgt dispersion_norm (min_disp c) \<and> flt dispersion_norm (max_disp c))"

definition in_bounds :: "cutoffs \<Rightarrow> float64 list \<Rightarrow> float64 list \<Rightarrow> bool list" where
  "in_bounds c mean dispersion_norm = map2 (in_bounds1 c) mean dispersion_norm"

subsection \<open>Messages and errors\<close>

text \<open>
  What the module reports while it runs: \<open>logg.info\<close>, \<open>logg.debug\<close> and
  \<open>warnings.warn\<close> calls, in the order they happen. The constructors stand for the
  messages of the source:
  \<^item> \<open>InfoReturningAllGenes\<close>: "`n_top_genes` > `adata.n_var`, returning all genes."
  \<^item> \<open>WarnTooFewDispersions\<close>: the \<open>UserWarning\<close> "`n_top_genes` > number of normalized
    dispersions, returning all genes with normalized dispersions."
  \<^item> \<open>DebugCutoff n t\<close>: "the n top genes correspond to a normalized dispersion cutoff of t"
  \<^item> \<open>DebugSingleGeneBins is\<close>: "Gene indices is fell into a single bin: their normalized
    dispersion was set to 1. ..."
\<close>

datatype event =
    InfoReturningAllGenes
  | WarnTooFewDispersions
  | DebugCutoff int float64
  | DebugSingleGeneBins "nat list"

datatype error = IndexError | ValueError | KeyError

subsection \<open>The top-N threshold\<close>

text \<open>
  Indexing a one-dimensional array with a Python \<open>int\<close>: a negative index counts from
  the end, and an index outside the array raises \<open>IndexError\<close>.
\<close>

definition getitem :: "'a list \<Rightarrow> int \<Rightarrow> error + 'a" where
  "getitem xs i =
     (if 0 \<le> i \<and> i < int (length xs) then Inr (xs ! nat i)
      else if i < 0 \<and> - int (length xs) \<le> i then Inr (xs ! nat (int (length xs) + i))
      else Inl IndexError)"

text \<open>
  \<open>_nth_highest\<close> on a NumPy array: the NaNs are dropped, \<open>n\<close> is lowered to the number
  of values left (with a warning), \<open>x[::-1].sort()\<close> sorts the values in descending order
  and \<open>x[n - 1]\<close> is returned. The result is the list of messages and the value or the
  error raised.
\<close>

definition nth_highest :: "float64 list \<Rightarrow> int \<Rightarrow> event list \<times> (error + float64)" where
  "nth_highest x n =
     (let x1 = dropna x;
          (evs, n1) = (if n > int (length x1) then ([WarnTooFewDispersions], int (length x1))
                       else ([], n));
          x2 = rev (sort x1)
      in (evs, map_sum id Num (getitem x2 (n1 - 1))))"

subsection \<open>Selecting the genes of one batch\<close>

text \<open>
  \<open>_subset_genes\<close>. Of \<open>adata\<close> only \<open>n_vars\<close> is read. In interval mode the array
  \<open>dispersion_norm\<close> is changed in place (NaN becomes 0), so the array as the function leaves
  it is part of the result.
\<close>

record subset_result =
  dispersion_norm_after :: "float64 list"
  events :: "event list"
  hvg_mask :: "error + bool list"

definition subset_genes :: "nat \<Rightarrow> float64 list \<Rightarrow> float64 list \<Rightarrow> cutoff \<Rightarrow> subset_result" where
  "subset_genes n_vars mean dispersion_norm cutoff =
     (case cutoff of
        Cutoffs c \<Rightarrow>
          (let dispersion_norm1 = zero_nans dispersion_norm
           in \<lparr>dispersion_norm_after = dispersion_norm1, events = [],
               hvg_mask = Inr (in_bounds c mean dispersion_norm1)\<rparr>)
      | NTopGenes n_top_genes \<Rightarrow>
          (let (evs1, n_top_genes1) =
                 (if n_top_genes > int n_vars then ([InfoReturningAllGenes], int n_vars)
                  else ([], n_top_genes));
               (evs2, r) = nth_highest dispersion_norm n_top_genes1
           in case r of
                Inl e \<Rightarrow>
                  \<lparr>dispersion_norm_after = dispersion_norm, events = evs1 @ evs2, hvg_mask = Inl e\<rparr>
              | Inr disp_cut_off \<Rightarrow>
                  \<lparr>dispersion_norm_after = dispersion_norm,
                   events = evs1 @ evs2 @ [DebugCutoff n_top_genes1 disp_cut_off],
                   hvg_mask = Inr (map (\<lambda>d. fge (nan_to_num d) disp_cut_off) dispersion_norm)\<rparr>))"

subsection \<open>Counting the selection\<close>

text \<open>The number of selected genes, \<open>np.sum\<close> of a boolean mask.\<close>

definition count_true :: "bool list \<Rightarrow> nat" where
  "count_true flags = length (filter (\<lambda>b. b) flags)"

text \<open>
  The rank \<open>_nth_highest\<close> ends up reading for \<open>n >= 1\<close>: \<open>n\<close> capped at the number of
  non-NaN values.
\<close>

definition n_effective :: "float64 list \<Rightarrow> int \<Rightarrow> nat" where
  "n_effective dn n = nat (min n (int (length (dropna dn))))"

subsection \<open>Batches\<close>

text \<open>
  \<open>_highly_variable_genes_batched\<close> runs the single-batch function on each batch, restricted
  to the genes \<open>filt\<close> detected in the batch. The frame \<open>hvg\<close> it gets back has one row per
  such gene, with the gene name in the column \<open>gene\<close> after \<open>reset_index\<close>.
\<close>

record 'g hvg_row =
  gene :: 'g
  means :: float64
  dispersions :: float64
  dispersions_norm :: float64
  highly_variable :: bool

record 'g batched_row =
  b_gene :: 'g
  b_means :: float64
  b_dispersions :: float64
  b_dispersions_norm :: float64
  highly_variable_nbatches :: int
  highly_variable_intersection :: bool

text \<open>Indexing an array with a boolean mask of the same length, \<open>xs[m]\<close>.\<close>

definition boolean_index :: "'a list \<Rightarrow> bool list \<Rightarrow> 'a list" where
  "boolean_index xs m = map fst (filter snd (zip xs m))"

text \<open>
  The rows added for the genes that were filtered out of a batch: \<open>gene_list[~filt]\<close> with
  zeros in every column and \<open>highly_variable = False\<close>.
\<close>

definition missing_hvg :: "'g list \<Rightarrow> bool list \<Rightarrow> 'g hvg_row list" where
  "missing_hvg gene_list filt =
     map (\<lambda>g. \<lparr>gene = g, means = Num (Fin 0), dispersions = Num (Fin 0),
               dispersions_norm = Num (Fin 0), highly_variable = False\<rparr>)
         (boolean_index gene_list (map Not filt))"

text \<open>
  The frame of one batch as it is appended to \<open>dfs\<close>; a batch is given by \<open>filt\<close> and the
  frame \<open>hvg\<close> of the single-batch run.
\<close>

definition batch_frame :: "'g list \<Rightarrow> bool list \<times> 'g hvg_row list \<Rightarrow> 'g hvg_row list" where
  "batch_frame gene_list b =
     (case b of (filt, hvg) \<Rightarrow>
        if count_true (map Not filt) > 0 then hvg @ missing_hvg gene_list filt else hvg)"

text \<open>
  \<open>df.groupby("gene", observed=True).agg(...)\<close> followed by the two added columns: one row
  per gene name, in the order of the sorted names, with the mean of the three float
  columns, the sum of \<open>highly_variable\<close> as integers in \<open>highly_variable_nbatches\<close>, and
  \<open>highly_variable_intersection = (highly_variable_nbatches == len(batches))\<close>. The mean is
  pandas' and is taken as the parameter \<open>agg_mean\<close>.
\<close>

definition groupby_gene ::
  "(float64 list \<Rightarrow> float64) \<Rightarrow> nat \<Rightarrow> ('g::linorder) hvg_row list \<Rightarrow> 'g batched_row list" where
  "groupby_gene agg_mean n_batches df =
     map (\<lambda>g. let grp = filter (\<lambda>r. gene r = g) df;
                  s = sum_list (map (\<lambda>r. if highly_variable r then 1 else 0) grp)
              in \<lparr>b_gene = g, b_means = agg_mean (map means grp),
                  b_dispersions = agg_mean (map dispersions grp),
                  b_dispersions_norm = agg_mean (map dispersions_norm grp),
                  highly_variable_nbatches = s,
                  highly_variable_intersection = (s = int n_batches)\<rparr>)
         (sort (remdups (map gene df)))"

text \<open>
  The loop over the batches, \<open>pd.concat\<close> and the aggregation. With no batch at all,
  \<open>dfs[0]\<close> raises \<open>IndexError\<close>.
\<close>

definition batched_aggregate ::
  "(float64 list \<Rightarrow> float64) \<Rightarrow> ('g::linorder) list \<Rightarrow> (bool list \<times> 'g hvg_row list) list
     \<Rightarrow> error + 'g batched_row list" where
  "batched_aggregate agg_mean gene_list batches =
     (let dfs = map (batch_frame gene_list) batches
      in if dfs = [] then Inl IndexError
         else Inr (groupby_gene agg_mean (length batches) (concat dfs)))"

text \<open>A gene is selected in a batch when the frame of that batch flags it.\<close>

definition selected_in :: "'g hvg_row list \<Rightarrow> 'g \<Rightarrow> bool" where
  "selected_in hvg g = list_ex (\<lambda>r. gene r = g \<and> highly_variable r) hvg"

text \<open>
  The interval branch at the end of \<open>_highly_variable_genes_batched\<close>:
  \<^verbatim>\<open>
  dispersion_norm = series_to_array(df["dispersions_norm"])
  dispersion_norm[np.isnan(dispersion_norm)] = 0
  df["highly_variable"] = cutoff.in_bounds(df["means"], df["dispersions_norm"])
  \<close>
  The NaNs are replaced in the array \<open>dispersion_norm\<close>, and \<open>in_bounds\<close> reads the column of
  the frame, so the arrays are kept in a store of named buffers: the two columns and the
  array \<open>Arr\<close> a copy would live in. \<open>series_to_array\<close> is imported from \<open>_distributed\<close>,
  a module of its own; whether its result shares the buffer of the column
  (as \<open>Series.to_numpy()\<close> does for a float column) or is a copy is the parameter \<open>shares\<close>.
\<close>

datatype buffer = Col_means | Col_dispersions_norm | Arr

type_synonym store = "buffer \<Rightarrow> float64 list"

definition series_to_array :: "bool \<Rightarrow> store \<Rightarrow> buffer \<Rightarrow> buffer \<times> store" where
  "series_to_array shares h col = (if shares then (col, h) else (Arr, h(Arr := h col)))"

definition batched_interval :: "bool \<Rightarrow> cutoffs \<Rightarrow> store \<Rightarrow> store \<times> bool list" where
  "batched_interval shares c df =
     (let (dispersion_norm, df1) = series_to_array shares df Col_dispersions_norm;
          df2 = df1(dispersion_norm := zero_nans (df1 dispersion_norm))
      in (df2, in_bounds c (df2 Col_means) (df2 Col_dispersions_norm)))"

subsection \<open>Statistics of the dispersions per bin\<close>




definition pd_median :: "(xreal \<Rightarrow> xreal \<Rightarrow> float64) \<Rightarrow> float64 list \<Rightarrow> float64" where
  "pd_median fmid xs =
     (let vs = sort (dropna xs); n = length vs
      in if n = 0 then NaN
         else if odd n then Num (vs ! (n div 2))
         else fmid (vs ! (n div 2 - 1)) (vs ! (n div 2)))"




subsection \<open>Flavor \<open>seurat_v3\<close>: the regularized variance of one batch\<close>

text \<open>
  The computations of \<open>_highly_variable_genes_seurat_v3\<close> are arithmetic on \<open>float64\<close>
  arrays. They are modelled on the reals: what is stated about them is exact arithmetic,
  without rounding and overflow; a division by zero gives the infinity or NaN it gives
  in NumPy. The per-gene \<open>mean\<close> and \<open>var\<close> of the batch come from \<open>_get_mean_var\<close> of
  the module \<open>_utils\<close> and are inputs.

  \<open>estimat_var[not_const] = model.outputs.fitted_values\<close>: an assignment through a boolean
  mask puts the values, in order, at the positions where the mask is true. NumPy takes as
  many values as the mask has true entries, or a single value for all of them, and raises
  \<open>ValueError\<close> otherwise.
\<close>

fun put_mask :: "'a list \<Rightarrow> bool list \<Rightarrow> 'a list \<Rightarrow> 'a list" where
  "put_mask (e # es) (m # ms) vs =
     (if m then (case vs of v # vs' \<Rightarrow> v # put_mask es ms vs' | [] \<Rightarrow> e # put_mask es ms [])
      else e # put_mask es ms vs)"
| "put_mask es ms vs = es"

definition mask_assign :: "'a list \<Rightarrow> bool list \<Rightarrow> 'a list \<Rightarrow> error + 'a list" where
  "mask_assign es ms vs =
     (if length ms \<noteq> length es then Inl IndexError
      else if length vs = count_true ms then Inr (put_mask es ms vs)
      else if length vs = 1 then Inr (put_mask es ms (replicate (count_true ms) (hd vs)))
      else Inl ValueError)"

text \<open>
  The loess fit is the work of \<open>skmisc\<close> and enters as the parameter \<open>loess\<close>: it maps the
  arrays \<open>x\<close>, \<open>y\<close> to the fitted values or raises. \<open>not_const\<close> is \<open>var > 0\<close>; only the
  genes it selects are passed to the fit, and the estimate of the others stays at the 0
  that \<open>np.zeros\<close> put there.
\<close>

definition estimat_var ::
  "(real list \<Rightarrow> real list \<Rightarrow> error + real list) \<Rightarrow> real list \<Rightarrow> real list \<Rightarrow> error + real list" where
  "estimat_var loess mean var =
     (let not_const = map (\<lambda>v. v > 0) var;
          y = map (log 10) (boolean_index var not_const);
          x = map (log 10) (boolean_index mean not_const)
      in case loess x y of
           Inl e \<Rightarrow> Inl e
         | Inr fitted_values \<Rightarrow> mask_assign (replicate (length var) 0) not_const fitted_values)"

text \<open>\<open>reg_std = np.sqrt(10**estimat_var)\<close>, for one gene.\<close>

definition reg_std :: "real \<Rightarrow> real" where
  "reg_std e = sqrt (10 powr e)"

text \<open>
  The counts of the batch are held by gene: one column of \<open>N\<close> counts per gene, \<open>N\<close> being
  the number of cells of the batch. In a dense matrix \<open>np.putmask\<close> replaces every count
  above \<open>clip_val\<close>. In a sparse matrix only the stored entries (\<open>batch_counts.data\<close>) are
  compared and replaced; an entry that is not stored (\<open>None\<close>) stays an implicit zero.
\<close>

definition clip_dense :: "real \<Rightarrow> real list \<Rightarrow> real list" where
  "clip_dense clip_val col = map (\<lambda>x. if x > clip_val then clip_val else x) col"

definition clip_sparse :: "real \<Rightarrow> real option list \<Rightarrow> real option list" where
  "clip_sparse clip_val col =
     map (\<lambda>e. case e of None \<Rightarrow> None | Some x \<Rightarrow> Some (if x > clip_val then clip_val else x)) col"

definition toarray :: "real option list \<Rightarrow> real list" where
  "toarray col = map (\<lambda>e. case e of None \<Rightarrow> 0 | Some x \<Rightarrow> x) col"

text \<open>
  \<open>norm_gene_var\<close> for one gene, from the two sums over the clipped column:
  \<^verbatim>\<open>
  (1 / ((N - 1) * np.square(reg_std))) * (
      (N * np.square(mean)) + squared_batch_counts_sum - 2 * batch_counts_sum * mean)
  \<close>
  When \<open>(N - 1) * reg_std^2\<close> is 0 the first factor is \<open>inf\<close>, and the product is NaN or an
  infinity.
\<close>

definition norm_var_formula :: "nat \<Rightarrow> real \<Rightarrow> real \<Rightarrow> real \<Rightarrow> real \<Rightarrow> float64" where
  "norm_var_formula N rs mean squared_batch_counts_sum batch_counts_sum =
     (let d = (real N - 1) * rs\<^sup>2;
          s = real N * mean\<^sup>2 + squared_batch_counts_sum - 2 * batch_counts_sum * mean
      in if d = 0 then (if s = 0 then NaN else if s > 0 then Num PInf else Num NInf)
         else Num (Fin (1 / d * s)))"

definition norm_gene_var_dense :: "nat \<Rightarrow> real \<Rightarrow> real \<Rightarrow> real list \<Rightarrow> float64" where
  "norm_gene_var_dense N rs mean col =
     (let clip_val = rs * sqrt (real N) + mean;
          batch_counts = clip_dense clip_val col
      in norm_var_formula N rs mean (sum_list (map (\<lambda>x. x\<^sup>2) batch_counts)) (sum_list batch_counts))"

definition norm_gene_var_sparse :: "nat \<Rightarrow> real \<Rightarrow> real \<Rightarrow> real option list \<Rightarrow> float64" where
  "norm_gene_var_sparse N rs mean col =
     (let clip_val = rs * sqrt (real N) + mean;
          batch_counts = toarray (clip_sparse clip_val col)
      in norm_var_formula N rs mean (sum_list (map (\<lambda>x. x\<^sup>2) batch_counts)) (sum_list batch_counts))"

datatype batch_counts = Dense "real list list" | Sparse "real option list list"

definition norm_gene_var :: "nat \<Rightarrow> real list \<Rightarrow> real list \<Rightarrow> batch_counts \<Rightarrow> float64 list" where
  "norm_gene_var N est mean data_batch =
     (case data_batch of
        Dense cols \<Rightarrow> map (\<lambda>(e, m, col). norm_gene_var_dense N (reg_std e) m col) (zip est (zip mean cols))
      | Sparse cols \<Rightarrow> map (\<lambda>(e, m, col). norm_gene_var_sparse N (reg_std e) m col) (zip est (zip mean cols)))"

subsection \<open>Flavor \<open>seurat_v3\<close>: ranks\<close>

text \<open>
  \<open>np.argsort(np.argsort(-norm_gene_vars, axis=1), axis=1)\<close>, for the row of one batch.
  \<open>np.argsort\<close> is called with its default \<open>kind\<close>, which NumPy documents as not stable,
  so it enters as the parameter \<open>argsort\<close>, and \<open>argsorted\<close> is what NumPy promises of its
  result: a permutation of the indices along which the values ascend, NaN last. The second
  call sorts the integer array the first one returned; \<open>int_array\<close> gives its values.
\<close>

fun fneg :: "float64 \<Rightarrow> float64" where
  "fneg NaN = NaN"
| "fneg (Num NInf) = Num PInf"
| "fneg (Num (Fin r)) = Num (Fin (- r))"
| "fneg (Num PInf) = Num NInf"



definition int_array :: "nat list \<Rightarrow> float64 list" where
  "int_array p = map (\<lambda>i. Num (Fin (real i))) p"

definition ranked_norm_gene_vars :: "(float64 list \<Rightarrow> nat list) \<Rightarrow> float64 list \<Rightarrow> nat list" where
  "ranked_norm_gene_vars argsort norm_gene_vars =
     argsort (int_array (argsort (map fneg norm_gene_vars)))"

text \<open>
  \<open>astype(np.float32)\<close> of a rank: integers below \<open>2^24\<close> are kept, larger ones are rounded
  to 24 significant bits, ties to even (overflow to \<open>inf\<close> beyond \<open>2^128\<close> is left out).
\<close>

definition float32_of_nat :: "nat \<Rightarrow> real" where
  "float32_of_nat n =
     (if n < 2 ^ 24 then real n
      else let e = floorlog 2 n - 24; q = n div 2 ^ e; r = n mod 2 ^ e; half = 2 ^ (e - 1)
           in real ((if r > half \<or> (r = half \<and> odd q) then q + 1 else q) * 2 ^ e))"



definition num_batches_high_var ::
  "(float64 list \<Rightarrow> nat list) \<Rightarrow> int \<Rightarrow> nat \<Rightarrow> float64 list list \<Rightarrow> int list" where
  "num_batches_high_var argsort n_top_genes n_genes norm_gene_vars =
     map (\<lambda>j. int (length (filter
                 (\<lambda>row. float32_of_nat (ranked_norm_gene_vars argsort row ! j)
                          < real_of_int n_top_genes) norm_gene_vars)))
         [0..<n_genes]"



section \<open>Theorems\<close>

subsection \<open>Facts about the comparisons\<close>

lemma fgt_widen: "fgt x m \<Longrightarrow> fge m m' \<Longrightarrow> fgt x m'"
  by (cases x; cases m; cases m') auto

lemma flt_widen: "flt x m \<Longrightarrow> fge m' m \<Longrightarrow> flt x m'"
  by (cases x; cases m; cases m') auto

lemma fgt_flt: "fgt a b = flt b a"
  by (cases a; cases b) auto

lemma in_bounds_nth:
  "i < length mean \<Longrightarrow> i < length dn \<Longrightarrow>
   in_bounds c mean dn ! i = in_bounds1 c (mean ! i) (dn ! i)"
  by (simp add: in_bounds_def)

lemma length_in_bounds: "length (in_bounds c mean dn) = min (length mean) (length dn)"
  by (simp add: in_bounds_def)

subsection \<open>Interval mode\<close>

text \<open>
  C3. Interval-mode selection is exactly the set of genes with
  \<open>min_mean < mean < max_mean\<close> and \<open>min_disp < dispersion_norm < max_disp\<close>, all four
  inequalities strict, and it is monotone: lowering \<open>min_mean\<close> or \<open>min_disp\<close>, or raising
  \<open>max_mean\<close> or \<open>max_disp\<close> (from the cutoffs \<open>c\<close> to the cutoffs \<open>c'\<close>), never removes a
  gene from the selection.
\<close>

theorem in_bounds_exact_and_monotone:
  "length (in_bounds c mean dn) = min (length mean) (length dn)
   \<and> (\<forall>i < min (length mean) (length dn).
        in_bounds c mean dn ! i
          = (flt (min_mean c) (mean ! i) \<and> flt (mean ! i) (max_mean c)
             \<and> flt (min_disp c) (dn ! i) \<and> flt (dn ! i) (max_disp c)))
   \<and> (fge (min_mean c) (min_mean c') \<and> fge (max_mean c') (max_mean c)
        \<and> fge (min_disp c) (min_disp c') \<and> fge (max_disp c') (max_disp c)
      \<longrightarrow> (\<forall>i < min (length mean) (length dn).
             in_bounds c mean dn ! i \<longrightarrow> in_bounds c' mean dn ! i))"
proof (intro conjI allI impI)
  show "length (in_bounds c mean dn) = min (length mean) (length dn)"
    by (rule length_in_bounds)
next
  fix i assume "i < min (length mean) (length dn)"
  then show "in_bounds c mean dn ! i
          = (flt (min_mean c) (mean ! i) \<and> flt (mean ! i) (max_mean c)
             \<and> flt (min_disp c) (dn ! i) \<and> flt (dn ! i) (max_disp c))"
    by (simp add: in_bounds_nth in_bounds1_def fgt_flt)
next
  fix i
  assume w: "fge (min_mean c) (min_mean c') \<and> fge (max_mean c') (max_mean c)
        \<and> fge (min_disp c) (min_disp c') \<and> fge (max_disp c') (max_disp c)"
    and i: "i < min (length mean) (length dn)"
    and sel: "in_bounds c mean dn ! i"
  from i sel have "in_bounds1 c (mean ! i) (dn ! i)"
    by (simp add: in_bounds_nth)
  with w have "in_bounds1 c' (mean ! i) (dn ! i)"
    unfolding in_bounds1_def by (blast intro: fgt_widen flt_widen)
  with i show "in_bounds c' mean dn ! i"
    by (simp add: in_bounds_nth)
qed

text \<open>
  The theorem at the default cutoffs (\<open>min_disp = 0.5\<close>, \<open>max_disp = inf\<close>,
  \<open>min_mean = 0.0125\<close>, \<open>max_mean = 3\<close>) widened to \<open>0\<close>, \<open>inf\<close>, \<open>0\<close>, \<open>4\<close>, for two
  genes of which the first is selected.
\<close>

theorem in_bounds_exact_and_monotone_witness:
  "in_bounds \<lparr>min_disp = Num (Fin (1/2)), max_disp = Num PInf,
              min_mean = Num (Fin (1/80)), max_mean = Num (Fin 3)\<rparr>
      [Num (Fin 1), Num (Fin 5)] [Num (Fin 1), NaN] ! 0
   \<and> in_bounds \<lparr>min_disp = Num (Fin 0), max_disp = Num PInf,
                min_mean = Num (Fin 0), max_mean = Num (Fin 4)\<rparr>
      [Num (Fin 1), Num (Fin 5)] [Num (Fin 1), NaN] ! 0"
proof -
  let ?c = "\<lparr>min_disp = Num (Fin (1/2)), max_disp = Num PInf,
             min_mean = Num (Fin (1/80)), max_mean = Num (Fin 3)\<rparr>"
  let ?c' = "\<lparr>min_disp = Num (Fin 0), max_disp = Num PInf,
              min_mean = Num (Fin 0), max_mean = Num (Fin 4)\<rparr>"
  let ?m = "[Num (Fin 1), Num (Fin 5)]"
  let ?d = "[Num (Fin 1), NaN]"
  have w: "fge (min_mean ?c) (min_mean ?c') \<and> fge (max_mean ?c') (max_mean ?c)
        \<and> fge (min_disp ?c) (min_disp ?c') \<and> fge (max_disp ?c') (max_disp ?c)"
    by simp
  have i: "(0::nat) < min (length ?m) (length ?d)"
    by simp
  have sel: "in_bounds ?c ?m ?d ! 0"
    by (simp add: in_bounds_def in_bounds1_def less_xreal_def)
  from in_bounds_exact_and_monotone [of ?c ?m ?d ?c'] w i sel
  have "in_bounds ?c' ?m ?d ! 0"
    by blast
  with sel show ?thesis
    by simp
qed

subsection \<open>Counting and sorting\<close>

lemma count_true_map: "count_true (map P xs) = length (filter P xs)"
  by (induction xs) (simp_all add: count_true_def)

lemma length_dropna: "length xs = length (dropna xs) + length (filter isnan xs)"
  by (induction xs rule: dropna.induct) simp_all

lemma set_dropna: "v \<in> set (dropna xs) \<longleftrightarrow> Num v \<in> set xs"
  by (induction xs rule: dropna.induct) auto

lemma filter_split_nan:
  "length (filter P xs)
     = length (filter (\<lambda>v. P (Num v)) (dropna xs)) + (if P NaN then length (filter isnan xs) else 0)"
  by (induction xs rule: dropna.induct) simp_all

lemma length_filter_desc: "length (filter P (rev (sort vs))) = length (filter P vs)"
proof -
  have "mset (filter P (rev (sort vs))) = mset (filter P vs)"
    by (simp add: mset_filter)
  then show ?thesis
    by (metis size_mset)
qed

lemma desc_nth_mono:
  assumes "i \<le> j" "j < length vs"
  shows "rev (sort vs) ! j \<le> rev (sort vs) ! i"
proof -
  have "sorted_wrt (\<lambda>x y. y \<le> x) (rev (sort vs))"
    by (simp add: sorted_wrt_rev)
  with assms show ?thesis
    by (cases "i = j") (auto simp: sorted_wrt_iff_nth_less)
qed

lemma length_filter_take_drop:
  "length (filter P ys) = length (filter P (take k ys)) + length (filter P (drop k ys))"
  by (metis append_take_drop_id filter_append length_append)

lemma at_least_k_above:
  assumes "0 < k" "k \<le> length vs"
  shows "k \<le> length (filter (\<lambda>v. rev (sort vs) ! (k - 1) \<le> v) vs)"
proof -
  let ?ys = "rev (sort vs)" and ?P = "\<lambda>v. rev (sort vs) ! (k - 1) \<le> v"
  have "\<forall>v \<in> set (take k ?ys). ?P v"
  proof
    fix v assume "v \<in> set (take k ?ys)"
    then obtain i where "i < k" "i < length ?ys" "v = ?ys ! i"
      by (auto simp: in_set_conv_nth)
    with assms show "?P v"
      using desc_nth_mono [of i "k - 1" vs] by simp
  qed
  then have "filter ?P (take k ?ys) = take k ?ys"
    by simp
  with assms have "k \<le> length (filter ?P ?ys)"
    using length_filter_take_drop [of ?P ?ys k] by simp
  then show ?thesis
    by (simp add: length_filter_desc)
qed

lemma fewer_than_k_strictly_above:
  assumes "0 < k" "k \<le> length vs"
  shows "length (filter (\<lambda>v. rev (sort vs) ! (k - 1) < v) vs) < k"
proof -
  let ?ys = "rev (sort vs)" and ?P = "\<lambda>v. rev (sort vs) ! (k - 1) < v"
  have "\<forall>v \<in> set (drop (k - 1) ?ys). \<not> ?P v"
  proof
    fix v assume "v \<in> set (drop (k - 1) ?ys)"
    then obtain i where i: "i < length (drop (k - 1) ?ys)" "v = drop (k - 1) ?ys ! i"
      by (auto simp: in_set_conv_nth)
    then have "k - 1 + i < length vs" "v = ?ys ! (k - 1 + i)"
      by simp_all
    then show "\<not> ?P v"
      using desc_nth_mono [of "k - 1" "k - 1 + i" vs] by simp
  qed
  then have "filter ?P (drop (k - 1) ?ys) = []"
    by simp
  then have "length (filter ?P ?ys) = length (filter ?P (take (k - 1) ?ys))"
    using length_filter_take_drop [of ?P ?ys "k - 1"] by simp
  also have "\<dots> \<le> k - 1"
    by (metis length_filter_le length_take min.cobounded2 order_trans)
  finally show ?thesis
    using assms by (simp add: length_filter_desc)
qed

lemma length_filter_ge_split:
  "length (filter (\<lambda>v. t \<le> v) vs)
     = length (filter (\<lambda>v. t < v) vs) + length (filter (\<lambda>v. v = t) vs)"
  for t :: xreal
  by (induction vs) auto

lemma kth_in_set: "0 < k \<Longrightarrow> k \<le> length vs \<Longrightarrow> rev (sort vs) ! (k - 1) \<in> set vs"
  by (metis One_nat_def Suc_pred length_rev length_sort less_Suc_eq_le nth_mem set_rev set_sort linorder_not_le)

subsection \<open>The threshold of top-N mode\<close>

lemma getitem_nth: "i < length xs \<Longrightarrow> getitem xs (int i) = Inr (xs ! i)"
  by (simp add: getitem_def)

lemma nth_highest_value:
  assumes "1 \<le> n" "dropna dn \<noteq> []"
  shows "snd (nth_highest dn n) = Inr (Num (rev (sort (dropna dn)) ! (n_effective dn n - 1)))"
proof -
  let ?vs = "dropna dn"
  let ?k = "n_effective dn n"
  from assms have k: "0 < ?k" "?k \<le> length ?vs"
    by (auto simp: n_effective_def)
  have n1: "(if n > int (length ?vs) then int (length ?vs) else n) - 1 = int (?k - 1)"
  proof -
    from assms(2) obtain m where "length ?vs = Suc m"
      by (cases ?vs) auto
    then show ?thesis
      using assms(1) by (auto simp: n_effective_def)
  qed
  have "getitem (rev (sort ?vs)) (int (?k - 1)) = Inr (rev (sort ?vs) ! (?k - 1))"
    using k by (intro getitem_nth) simp
  then show ?thesis
    using n1 by (auto simp: nth_highest_def Let_def split: if_splits)
qed

lemma subset_genes_top_n:
  assumes "1 \<le> n" "dropna dn \<noteq> []"
  shows "hvg_mask (subset_genes (length dn) mean dn (NTopGenes n))
           = Inr (map (\<lambda>d. fge (nan_to_num d) (Num (rev (sort (dropna dn)) ! (n_effective dn n - 1)))) dn)"
proof -
  have le: "length (dropna dn) \<le> length dn"
    using length_dropna [of dn] by simp
  let ?n1 = "if n > int (length dn) then int (length dn) else n"
  have "1 \<le> ?n1"
    using assms le by (cases dn) auto
  moreover have "n_effective dn ?n1 = n_effective dn n"
    using le by (auto simp: n_effective_def)
  ultimately have "snd (nth_highest dn ?n1)
      = Inr (Num (rev (sort (dropna dn)) ! (n_effective dn n - 1)))"
    using nth_highest_value [of ?n1 dn] assms(2) by simp
  then show ?thesis
    by (auto simp: subset_genes_def Let_def split: prod.splits if_splits)
qed

lemma float_max_nonneg: "0 \<le> float_max"
  by (simp add: float_max_def)

lemma finite_flag: "fge (nan_to_num (Num (Fin r))) (Num t) = (t \<le> Fin r)"
  by simp

lemma count_selected_split:
  "count_true (map (\<lambda>d. fge (nan_to_num d) (Num t)) dn)
     = length (filter (\<lambda>v. fge (nan_to_num (Num v)) (Num t)) (dropna dn))
       + (if t \<le> Fin 0 then length (filter isnan dn) else 0)"
  using filter_split_nan [of "\<lambda>d. fge (nan_to_num d) (Num t)" dn]
  by (simp add: count_true_map)

lemma finite_filter:
  assumes "\<forall>v \<in> set vs. \<exists>r. v = Fin r"
  shows "filter (\<lambda>v. fge (nan_to_num (Num v)) (Num t)) vs = filter (\<lambda>v. t \<le> v) vs"
  using assms by (intro filter_cong) auto

lemma below_zero_flag:
  assumes "t \<le> Fin 0" "t \<le> v"
  shows "fge (nan_to_num (Num v)) (Num t)"
  using assms float_max_nonneg by (cases v; cases t) auto

lemma length_filter_mono:
  "(\<And>x. x \<in> set xs \<Longrightarrow> P x \<Longrightarrow> Q x) \<Longrightarrow> length (filter P xs) \<le> length (filter Q xs)"
  by (induction xs) auto

subsection \<open>Top-N mode\<close>

text \<open>
  C2, as amended. In a single-batch run in top-N mode with \<open>N \<ge> 1\<close>, at least one non-NaN
  normalized dispersion and all non-NaN normalized dispersions finite, the selection flag
  of a gene is (normalized dispersion, NaN replaced by 0) \<open>>=\<close> \<open>t\<close>, where \<open>t\<close> is the
  \<open>k\<close>-th highest non-NaN normalized dispersion and \<open>k\<close> is \<open>N\<close> capped at the number of
  non-NaN values: \<open>t\<close> is one of the values, fewer than \<open>k\<close> values lie strictly above it and
  at least \<open>k\<close> lie at or above it. Hence at least \<open>k\<close> genes are selected, and exactly \<open>k\<close>
  when only one gene has the value \<open>t\<close> and either no dispersion is NaN or \<open>t\<close> is positive.
\<close>

theorem top_n_selection:
  assumes "1 \<le> n" and "dropna dn \<noteq> []" and "\<forall>v \<in> set (dropna dn). \<exists>r. v = Fin r"
  shows "\<exists>t. hvg_mask (subset_genes (length dn) mean dn (NTopGenes n))
               = Inr (map (\<lambda>d. fge (nan_to_num d) (Num t)) dn)
           \<and> Num t \<in> set dn
           \<and> length (filter (\<lambda>v. t < v) (dropna dn)) < n_effective dn n
           \<and> n_effective dn n \<le> length (filter (\<lambda>v. t \<le> v) (dropna dn))
           \<and> n_effective dn n \<le> count_true (map (\<lambda>d. fge (nan_to_num d) (Num t)) dn)
           \<and> (length (filter (\<lambda>d. d = Num t) dn) = 1 \<and> (NaN \<notin> set dn \<or> Fin 0 < t)
                \<longrightarrow> count_true (map (\<lambda>d. fge (nan_to_num d) (Num t)) dn) = n_effective dn n)"
proof -
  let ?vs = "dropna dn"
  let ?k = "n_effective dn n"
  let ?t = "rev (sort ?vs) ! (?k - 1)"
  let ?flags = "map (\<lambda>d. fge (nan_to_num d) (Num ?t)) dn"
  from assms have k: "0 < ?k" "?k \<le> length ?vs"
    by (auto simp: n_effective_def)
  have m: "hvg_mask (subset_genes (length dn) mean dn (NTopGenes n)) = Inr ?flags"
    using assms(1,2) by (rule subset_genes_top_n)
  have mem: "Num ?t \<in> set dn"
    using kth_in_set [OF k] by (simp add: set_dropna)
  have gt: "length (filter (\<lambda>v. ?t < v) ?vs) < ?k"
    using k by (rule fewer_than_k_strictly_above)
  have ge: "?k \<le> length (filter (\<lambda>v. ?t \<le> v) ?vs)"
    using k by (rule at_least_k_above)
  have cnt: "count_true ?flags
      = length (filter (\<lambda>v. ?t \<le> v) ?vs) + (if ?t \<le> Fin 0 then length (filter isnan dn) else 0)"
    using assms(3) by (simp add: count_selected_split finite_filter)
  have lower: "?k \<le> count_true ?flags"
    using ge cnt by simp
  have exact: "count_true ?flags = ?k"
    if once: "length (filter (\<lambda>d. d = Num ?t) dn) = 1"
      and nonan: "NaN \<notin> set dn \<or> Fin 0 < ?t"
  proof -
    have "length (filter (\<lambda>v. v = ?t) ?vs) = 1"
      using once filter_split_nan [of "\<lambda>d. d = Num ?t" dn] by simp
    then have "length (filter (\<lambda>v. ?t \<le> v) ?vs) = ?k"
      using gt ge length_filter_ge_split [of ?t ?vs] by simp
    moreover have "(if ?t \<le> Fin 0 then length (filter isnan dn) else 0) = 0"
    proof (cases "NaN \<in> set dn")
      case True
      with nonan show ?thesis by auto
    next
      case False
      then have "\<forall>d \<in> set dn. \<not> isnan d"
        by (metis isnan.elims(2))
      then have "filter isnan dn = []"
        by simp
      then show ?thesis by simp
    qed
    ultimately show ?thesis
      using cnt by simp
  qed
  show ?thesis
    using m mem gt ge lower exact by blast
qed

text \<open>
  The theorem at four genes with dispersions \<open>3, NaN, 1, 2\<close> and \<open>N = 2\<close>: the threshold
  is 2 and exactly two genes are selected.
\<close>

theorem top_n_selection_witness:
  "\<exists>t. hvg_mask (subset_genes 4 [] [Num (Fin 3), NaN, Num (Fin 1), Num (Fin 2)] (NTopGenes 2))
          = Inr (map (\<lambda>d. fge (nan_to_num d) (Num t)) [Num (Fin 3), NaN, Num (Fin 1), Num (Fin 2)])
      \<and> count_true (map (\<lambda>d. fge (nan_to_num d) (Num t)) [Num (Fin 3), NaN, Num (Fin 1), Num (Fin 2)])
          = n_effective [Num (Fin 3), NaN, Num (Fin 1), Num (Fin 2)] 2"
proof -
  let ?dn = "[Num (Fin 3), NaN, Num (Fin 1), Num (Fin 2)]"
  have h1: "1 \<le> (2::int)" by simp
  have h2: "dropna ?dn \<noteq> []" by simp
  have h3: "\<forall>v \<in> set (dropna ?dn). \<exists>r. v = Fin r" by simp
  from top_n_selection [OF h1 h2 h3, of "[]"] obtain t where
    m: "hvg_mask (subset_genes (length ?dn) [] ?dn (NTopGenes 2))
          = Inr (map (\<lambda>d. fge (nan_to_num d) (Num t)) ?dn)"
    and mem: "Num t \<in> set ?dn"
    and exact: "length (filter (\<lambda>d. d = Num t) ?dn) = 1 \<and> (NaN \<notin> set ?dn \<or> Fin 0 < t)
                \<longrightarrow> count_true (map (\<lambda>d. fge (nan_to_num d) (Num t)) ?dn) = n_effective ?dn 2"
    by blast
  from mem have "t = Fin 3 \<or> t = Fin 1 \<or> t = Fin 2"
    by auto
  then have "length (filter (\<lambda>d. d = Num t) ?dn) = 1 \<and> (NaN \<notin> set ?dn \<or> Fin 0 < t)"
    by (auto simp: less_xreal_def)
  with exact have "count_true (map (\<lambda>d. fge (nan_to_num d) (Num t)) ?dn) = n_effective ?dn 2"
    by blast
  moreover have len: "length ?dn = 4"
    by simp
  ultimately show ?thesis
    using m [unfolded len] by blast
qed

text \<open>
  C2 as stated fails when a dispersion is NaN: of the two genes with dispersions
  \<open>NaN, 1\<close> and \<open>N = 2\<close> only one is selected, fewer than \<open>min(N, gene count) = 2\<close>.
\<close>

theorem top_n_selection_counterexample:
  "hvg_mask (subset_genes 2 [Num (Fin 1), Num (Fin 1)] [NaN, Num (Fin 1)] (NTopGenes 2))
     = Inr [False, True]
   \<and> count_true [False, True] < min 2 (length [NaN, Num (Fin 1)])"
  by (simp add: subset_genes_def nth_highest_def getitem_def count_true_def)

text \<open>
  C10. In single-batch top-N mode, when the \<open>N\<close>-th highest non-NaN normalized dispersion
  \<open>t\<close> (it exists: \<open>1 \<le> N \<le>\<close> number of non-NaN values) is at most 0, every gene whose
  normalized dispersion is NaN is flagged, because NaN is replaced by 0 right before the
  comparison with \<open>t\<close>; and if there is such a gene, more than \<open>N\<close> genes are selected.
\<close>

theorem nan_gene_selected_below_zero:
  assumes "1 \<le> n" and "n \<le> int (length (dropna dn))"
    and "snd (nth_highest dn n) = Inr (Num t)" and "t \<le> Fin 0"
  shows "hvg_mask (subset_genes (length dn) mean dn (NTopGenes n))
           = Inr (map (\<lambda>d. fge (nan_to_num d) (Num t)) dn)
         \<and> (\<forall>i < length dn. isnan (dn ! i) \<longrightarrow> map (\<lambda>d. fge (nan_to_num d) (Num t)) dn ! i)
         \<and> (NaN \<in> set dn \<longrightarrow> n < int (count_true (map (\<lambda>d. fge (nan_to_num d) (Num t)) dn)))"
proof -
  let ?vs = "dropna dn"
  let ?flags = "map (\<lambda>d. fge (nan_to_num d) (Num t)) dn"
  from assms(1,2) have ne: "?vs \<noteq> []"
    by auto
  from assms(1,2) have k: "n_effective dn n = nat n" "0 < nat n" "nat n \<le> length ?vs"
    by (auto simp: n_effective_def)
  from nth_highest_value [OF assms(1) ne] assms(3) k(1)
  have t: "t = rev (sort ?vs) ! (nat n - 1)"
    by simp
  have m: "hvg_mask (subset_genes (length dn) mean dn (NTopGenes n)) = Inr ?flags"
    using subset_genes_top_n [OF assms(1) ne, of mean] t k(1) by simp
  have nan: "\<forall>i < length dn. isnan (dn ! i) \<longrightarrow> ?flags ! i"
  proof (intro allI impI)
    fix i assume "i < length dn" "isnan (dn ! i)"
    then show "?flags ! i"
      using assms(4) by (cases "dn ! i") simp_all
  qed
  have cnt: "n < int (count_true ?flags)" if "NaN \<in> set dn"
  proof -
    from that have "filter isnan dn \<noteq> []"
      by (auto simp: filter_empty_conv intro!: bexI [of _ NaN])
    then have z: "0 < length (filter isnan dn)"
      by simp
    have "nat n \<le> length (filter (\<lambda>v. t \<le> v) ?vs)"
      using at_least_k_above [OF k(2,3)] t by simp
    also have "\<dots> \<le> length (filter (\<lambda>v. fge (nan_to_num (Num v)) (Num t)) ?vs)"
      using assms(4) by (intro length_filter_mono below_zero_flag)
    finally have "nat n \<le> length (filter (\<lambda>v. fge (nan_to_num (Num v)) (Num t)) ?vs)" .
    moreover have "count_true ?flags
        = length (filter (\<lambda>v. fge (nan_to_num (Num v)) (Num t)) ?vs) + length (filter isnan dn)"
      using assms(4) by (simp add: count_selected_split)
    ultimately have "nat n < count_true ?flags"
      using z by linarith
    then show ?thesis
      by simp
  qed
  from m nan cnt show ?thesis
    by blast
qed

text \<open>The theorem at dispersions \<open>NaN, -1, -2\<close> and \<open>N = 1\<close>: two genes are selected.\<close>

theorem nan_gene_selected_below_zero_witness:
  "hvg_mask (subset_genes 3 [] [NaN, Num (Fin (- 1)), Num (Fin (- 2))] (NTopGenes 1))
     = Inr [True, True, False]
   \<and> (1::int) < int (count_true [True, True, False])"
proof -
  let ?dn = "[NaN, Num (Fin (- 1)), Num (Fin (- 2))]"
  have h1: "1 \<le> (1::int)" by simp
  have h2: "(1::int) \<le> int (length (dropna ?dn))" by simp
  have h3: "snd (nth_highest ?dn 1) = Inr (Num (Fin (- 1)))"
    by (simp add: nth_highest_def getitem_def)
  have h4: "Fin (- 1) \<le> Fin 0" by simp
  have h5: "NaN \<in> set ?dn" by simp
  have len: "length ?dn = 3" by simp
  have flags: "map (\<lambda>d. fge (nan_to_num d) (Num (Fin (- 1)))) ?dn = [True, True, False]"
    by simp
  from nan_gene_selected_below_zero [OF h1 h2 h3 h4, of "[]", unfolded len flags] h5
  show ?thesis
    by simp
qed

subsection \<open>More genes requested than there are dispersions\<close>

text \<open>
  When every normalized dispersion is NaN, \<open>_nth_highest\<close> lowers \<open>n\<close> to 0 and reads
  \<open>x[-1]\<close> of an empty array: the run ends with \<open>IndexError\<close> after the warning.
\<close>

lemma top_n_all_nan_raises:
  "hvg_mask (subset_genes 2 [Num (Fin 1), Num (Fin 2)] [NaN, NaN] (NTopGenes 1)) = Inl IndexError
   \<and> events (subset_genes 2 [Num (Fin 1), Num (Fin 2)] [NaN, NaN] (NTopGenes 1))
       = [WarnTooFewDispersions]"
  by (simp add: subset_genes_def nth_highest_def getitem_def)





subsection \<open>NaN in interval mode\<close>


lemma zero_nans_nth: "i < length dn \<Longrightarrow> isnan (dn ! i) \<Longrightarrow> zero_nans dn ! i = Num (Fin 0)"
  by (simp add: zero_nans_def)


lemma batched_interval_view:
  "batched_interval True c df
     = (df(Col_dispersions_norm := zero_nans (df Col_dispersions_norm)),
        in_bounds c (df Col_means) (zero_nans (df Col_dispersions_norm)))"
  by (simp add: batched_interval_def series_to_array_def)

lemma batched_interval_copy:
  "batched_interval False c df
     = (df(Arr := zero_nans (df Col_dispersions_norm)),
        in_bounds c (df Col_means) (df Col_dispersions_norm))"
  by (simp add: batched_interval_def series_to_array_def)



text \<open>
  What the sharing decides: were the array a copy, the NaN would stay in the column and
  the gene of the example above would not be selected in a batched run.
\<close>

lemma batched_interval_copy_example:
  "snd (batched_interval False
      \<lparr>min_disp = Num (Fin (- 1)), max_disp = Num (Fin 1),
       min_mean = Num (Fin 0), max_mean = Num (Fin 3)\<rparr>
      ((\<lambda>_. [])(Col_means := [Num (Fin 1)], Col_dispersions_norm := [NaN]))) = [False]
   \<and> snd (batched_interval True
      \<lparr>min_disp = Num (Fin (- 1)), max_disp = Num (Fin 1),
       min_mean = Num (Fin 0), max_mean = Num (Fin 3)\<rparr>
      ((\<lambda>_. [])(Col_means := [Num (Fin 1)], Col_dispersions_norm := [NaN]))) = [True]"
  by (simp add: batched_interval_copy batched_interval_view in_bounds_def in_bounds1_def
      zero_nans_def less_xreal_def)

subsection \<open>Aggregation over batches\<close>

lemma boolean_index_split:
  "length m = length xs \<Longrightarrow>
   mset (boolean_index xs m) + mset (boolean_index xs (map Not m)) = mset xs"
proof (induction xs arbitrary: m)
  case Nil
  then show ?case by (simp add: boolean_index_def)
next
  case (Cons x xs)
  then obtain b m' where m: "m = b # m'" "length m' = length xs"
    by (cases m) auto
  with Cons.IH [of m'] show ?case
    by (cases b) (auto simp: boolean_index_def)
qed

lemma count_true_not_zero:
  "count_true (map Not m) = 0 \<Longrightarrow> boolean_index xs (map Not m) = []"
  by (induction xs arbitrary: m) (auto simp: boolean_index_def count_true_def filter_empty_conv dest!: set_zip_rightD)

lemma batch_frame_genes:
  assumes "length filt = length gene_list" and "map gene hvg = boolean_index gene_list filt"
  shows "mset (map gene (batch_frame gene_list (filt, hvg))) = mset gene_list"
proof -
  have "map gene (hvg @ missing_hvg gene_list filt)
          = boolean_index gene_list filt @ boolean_index gene_list (map Not filt)"
    using assms(2) by (simp add: missing_hvg_def comp_def)
  then have full: "mset (map gene (hvg @ missing_hvg gene_list filt)) = mset gene_list"
    using boolean_index_split [OF assms(1)] by simp
  show ?thesis
  proof (cases "count_true (map Not filt) > 0")
    case True
    with full show ?thesis by (simp add: batch_frame_def)
  next
    case False
    then have "missing_hvg gene_list filt = []"
      using count_true_not_zero [of filt gene_list] by (simp add: missing_hvg_def)
    with full False show ?thesis by (simp add: batch_frame_def)
  qed
qed

lemma filter_distinct_key:
  "distinct (map k f) \<Longrightarrow> g \<in> set (map k f) \<Longrightarrow> \<exists>r. filter (\<lambda>r. k r = g) f = [r] \<and> r \<in> set f"
proof (induction f)
  case Nil
  then show ?case by simp
next
  case (Cons a f)
  show ?case
  proof (cases "k a = g")
    case True
    with Cons.prems have "\<forall>r \<in> set f. k r \<noteq> g"
      by (auto simp: image_iff)
    then have "filter (\<lambda>r. k r = g) f = []"
      by (simp add: filter_empty_conv)
    with True show ?thesis by simp
  next
    case False
    with Cons show ?thesis by auto
  qed
qed

lemma frame_contribution:
  assumes "distinct (map gene f)" and "g \<in> set (map gene f)"
  shows "sum_list (map (\<lambda>r. if highly_variable r then 1 else 0) (filter (\<lambda>r. gene r = g) f))
           = (if selected_in f g then (1::int) else 0)"
proof -
  from filter_distinct_key [OF assms] obtain r where
    r: "filter (\<lambda>r. gene r = g) f = [r]" "r \<in> set f"
    by blast
  then have g: "gene r = g"
    by (metis (mono_tags, lifting) list.set_intros(1) mem_Collect_eq set_filter)
  have "selected_in f g = highly_variable r"
  proof
    assume "selected_in f g"
    then obtain r' where "r' \<in> set f" "gene r' = g" "highly_variable r'"
      by (auto simp: selected_in_def list_ex_iff)
    then have "r' \<in> set (filter (\<lambda>r. gene r = g) f)" by simp
    with r \<open>highly_variable r'\<close> show "highly_variable r" by simp
  next
    assume "highly_variable r"
    with r g show "selected_in f g"
      by (auto simp: selected_in_def list_ex_iff)
  qed
  with r show ?thesis by simp
qed

lemma sum_over_concat:
  "sum_list (map h (filter P (concat fs))) = sum_list (map (\<lambda>f. sum_list (map h (filter P f))) fs)"
  by (induction fs) simp_all

lemma sum_indicator:
  "sum_list (map (\<lambda>f. if Q f then (1::int) else 0) fs) = int (length (filter Q fs))"
  by (induction fs) simp_all

lemma nbatches_of_gene:
  assumes "distinct gene_list"
    and "\<forall>b \<in> set batches. length (fst b) = length gene_list
            \<and> map gene (snd b) = boolean_index gene_list (fst b)"
    and "g \<in> set gene_list"
  shows "sum_list (map (\<lambda>r. if highly_variable r then 1 else 0)
            (filter (\<lambda>r. gene r = g) (concat (map (batch_frame gene_list) batches))))
         = int (length (filter (\<lambda>b. selected_in (snd b) g) batches))"
proof -
  have each: "sum_list (map (\<lambda>r. if highly_variable r then 1 else 0)
                 (filter (\<lambda>r. gene r = g) (batch_frame gene_list b)))
              = (if selected_in (snd b) g then (1::int) else 0)" if b: "b \<in> set batches" for b
  proof -
    obtain filt hvg where fh: "b = (filt, hvg)" by (cases b)
    with assms(2) b have wf: "length filt = length gene_list"
        "map gene hvg = boolean_index gene_list filt"
      by auto
    have ms: "mset (map gene (batch_frame gene_list b)) = mset gene_list"
      using batch_frame_genes [OF wf] fh by simp
    then have d: "distinct (map gene (batch_frame gene_list b))"
      using assms(1) by (metis mset_eq_imp_distinct_iff)
    from ms have "set (map gene (batch_frame gene_list b)) = set gene_list"
      by (metis set_mset_mset)
    with assms(3) have m: "g \<in> set (map gene (batch_frame gene_list b))"
      by simp
    have "selected_in (batch_frame gene_list b) g = selected_in hvg g"
      by (auto simp: batch_frame_def fh selected_in_def list_ex_iff missing_hvg_def)
    with frame_contribution [OF d m] fh show ?thesis
      by simp
  qed
  have "sum_list (map (\<lambda>r. if highly_variable r then 1 else 0)
            (filter (\<lambda>r. gene r = g) (concat (map (batch_frame gene_list) batches))))
        = sum_list (map (\<lambda>b. if selected_in (snd b) g then (1::int) else 0) batches)"
    using each by (simp add: sum_over_concat comp_def cong: map_cong)
  then show ?thesis
    by (simp add: sum_indicator)
qed

lemma filter_map_key:
  assumes "\<And>k. key (mk k) = k"
  shows "distinct ks \<Longrightarrow> g \<in> set ks \<Longrightarrow> filter (\<lambda>r. key r = g) (map mk ks) = [mk g]"
proof (induction ks)
  case Nil
  then show ?case by simp
next
  case (Cons a ks)
  show ?case
  proof (cases "a = g")
    case True
    with Cons.prems have "\<forall>k \<in> set ks. k \<noteq> g" by auto
    then have "filter (\<lambda>r. key r = g) (map mk ks) = []"
      by (simp add: filter_empty_conv assms)
    with True show ?thesis by (simp add: assms)
  next
    case False
    with Cons show ?thesis by (simp add: assms)
  qed
qed

lemma length_filter_all: "(length (filter P xs) = length xs) = (\<forall>x \<in> set xs. P x)"
  by (metis filter_id_conv length_filter_less less_irrefl)

lemma groupby_row:
  assumes "g \<in> gene ` set df"
  shows "\<exists>r. filter (\<lambda>r. b_gene r = g) (groupby_gene agg_mean n df) = [r]
     \<and> highly_variable_nbatches r
          = sum_list (map (\<lambda>r. if highly_variable r then 1 else 0) (filter (\<lambda>r. gene r = g) df))
     \<and> highly_variable_intersection r = (highly_variable_nbatches r = int n)"
proof -
  let ?keys = "sort (remdups (map gene df))"
  let ?mk = "\<lambda>g. let grp = filter (\<lambda>r. gene r = g) df;
                  s = sum_list (map (\<lambda>r. if highly_variable r then 1 else 0) grp)
              in \<lparr>b_gene = g, b_means = agg_mean (map means grp),
                  b_dispersions = agg_mean (map dispersions grp),
                  b_dispersions_norm = agg_mean (map dispersions_norm grp),
                  highly_variable_nbatches = s,
                  highly_variable_intersection = (s = int n)\<rparr>"
  have d: "distinct ?keys" by simp
  have m: "g \<in> set ?keys" using assms by simp
  have k: "\<And>k. b_gene (?mk k) = k" by (simp add: Let_def)
  have "filter (\<lambda>r. b_gene r = g) (map ?mk ?keys) = [?mk g]"
    using k d m by (rule filter_map_key)
  then have "filter (\<lambda>r. b_gene r = g) (groupby_gene agg_mean n df) = [?mk g]"
    by (simp add: groupby_gene_def)
  then show ?thesis
    by (simp add: Let_def)
qed

text \<open>
  C8. In a batched run with \<open>K \<ge> 1\<close> batches over distinct gene names, where the frame of
  each single-batch run has one row per gene kept in that batch, every gene has exactly
  one row in the aggregated frame; its \<open>highly_variable_nbatches\<close> is the number of batches
  in which it was selected, lies between 0 and \<open>K\<close>, and \<open>highly_variable_intersection\<close> is
  true iff \<open>highly_variable_nbatches = K\<close>, that is iff the gene was selected in every batch.
\<close>

theorem nbatches_and_intersection:
  assumes "distinct gene_list"
    and "\<forall>b \<in> set batches. length (fst b) = length gene_list
            \<and> map gene (snd b) = boolean_index gene_list (fst b)"
    and "g \<in> set gene_list" and "batches \<noteq> []"
  shows "\<exists>df r. batched_aggregate agg_mean gene_list batches = Inr df
     \<and> filter (\<lambda>r. b_gene r = g) df = [r]
     \<and> highly_variable_nbatches r = int (length (filter (\<lambda>b. selected_in (snd b) g) batches))
     \<and> 0 \<le> highly_variable_nbatches r \<and> highly_variable_nbatches r \<le> int (length batches)
     \<and> (highly_variable_intersection r \<longleftrightarrow> highly_variable_nbatches r = int (length batches))
     \<and> (highly_variable_intersection r \<longleftrightarrow> (\<forall>b \<in> set batches. selected_in (snd b) g))"
proof -
  let ?df = "concat (map (batch_frame gene_list) batches)"
  from assms(4) obtain b where b: "b \<in> set batches"
    by (cases batches) auto
  obtain filt hvg where fh: "b = (filt, hvg)" by (cases b)
  with assms(2) b have wf: "length filt = length gene_list"
      "map gene hvg = boolean_index gene_list filt"
    by auto
  have "set (map gene (batch_frame gene_list b)) = set gene_list"
    using batch_frame_genes [OF wf] fh by (metis set_mset_mset)
  with assms(3) have "g \<in> gene ` set (batch_frame gene_list b)"
    by simp
  with b have "g \<in> gene ` set ?df"
    by force
  from groupby_row [OF this, of agg_mean "length batches"] obtain r where
    r: "filter (\<lambda>r. b_gene r = g) (groupby_gene agg_mean (length batches) ?df) = [r]"
      "highly_variable_nbatches r
          = sum_list (map (\<lambda>r. if highly_variable r then 1 else 0) (filter (\<lambda>r. gene r = g) ?df))"
      "highly_variable_intersection r = (highly_variable_nbatches r = int (length batches))"
    by blast
  have n: "highly_variable_nbatches r = int (length (filter (\<lambda>b. selected_in (snd b) g) batches))"
    using r(2) nbatches_of_gene [OF assms(1-3)] by simp
  have le: "highly_variable_nbatches r \<le> int (length batches)"
    using n by simp
  have all: "(highly_variable_nbatches r = int (length batches))
               = (\<forall>b \<in> set batches. selected_in (snd b) g)"
    using n by (simp add: length_filter_all)
  have agg: "batched_aggregate agg_mean gene_list batches
               = Inr (groupby_gene agg_mean (length batches) ?df)"
    using assms(4) by (simp add: batched_aggregate_def)
  from agg r(1,3) n le all show ?thesis
    by auto
qed

text \<open>
  The theorem at two genes and two batches: gene 1 is selected in the first batch and
  filtered out of the second, so it counts one batch and is not in the intersection.
\<close>

theorem nbatches_and_intersection_witness:
  "\<exists>df r. batched_aggregate (\<lambda>xs. NaN) [1::nat, 2]
        [([True, True],
          [\<lparr>gene = 1, means = Num (Fin 1), dispersions = Num (Fin 1),
             dispersions_norm = Num (Fin 1), highly_variable = True\<rparr>,
           \<lparr>gene = 2, means = Num (Fin 1), dispersions = Num (Fin 1),
             dispersions_norm = Num (Fin 1), highly_variable = True\<rparr>]),
         ([False, True],
          [\<lparr>gene = 2, means = Num (Fin 1), dispersions = Num (Fin 1),
             dispersions_norm = Num (Fin 1), highly_variable = True\<rparr>])] = Inr df
     \<and> filter (\<lambda>r. b_gene r = 1) df = [r]
     \<and> highly_variable_nbatches r = 1 \<and> \<not> highly_variable_intersection r"
proof -
  let ?gl = "[1::nat, 2]"
  let ?bs = "[([True, True],
          [\<lparr>gene = 1::nat, means = Num (Fin 1), dispersions = Num (Fin 1),
             dispersions_norm = Num (Fin 1), highly_variable = True\<rparr>,
           \<lparr>gene = 2, means = Num (Fin 1), dispersions = Num (Fin 1),
             dispersions_norm = Num (Fin 1), highly_variable = True\<rparr>]),
         ([False, True],
          [\<lparr>gene = 2, means = Num (Fin 1), dispersions = Num (Fin 1),
             dispersions_norm = Num (Fin 1), highly_variable = True\<rparr>])]"
  have h1: "distinct ?gl" by simp
  have h2: "\<forall>b \<in> set ?bs. length (fst b) = length ?gl
            \<and> map gene (snd b) = boolean_index ?gl (fst b)"
    by (simp add: boolean_index_def)
  have h3: "1 \<in> set ?gl" by simp
  have h4: "?bs \<noteq> []" by simp
  have n: "length (filter (\<lambda>b. selected_in (snd b) (1::nat)) ?bs) = 1"
    by (simp add: selected_in_def)
  from nbatches_and_intersection [OF h1 h2 h3 h4, of "\<lambda>xs. NaN", unfolded n] show ?thesis
    by auto
qed

subsection \<open>Bins with a single gene\<close>



lemma pd_median_single: "pd_median fmid [Num v] = Num v"
  by (simp add: pd_median_def)






subsection \<open>Flavor \<open>seurat_v3\<close>: genes of zero variance\<close>

lemma length_put_mask: "length (put_mask es ms vs) = length es"
  by (induction es ms vs rule: put_mask.induct) (auto split: list.splits)

lemma put_mask_keeps:
  "i < length es \<Longrightarrow> i < length ms \<Longrightarrow> \<not> ms ! i \<Longrightarrow> put_mask es ms vs ! i = es ! i"
proof (induction es ms vs arbitrary: i rule: put_mask.induct)
  case (1 e es m ms vs)
  then show ?case
    by (cases i) (auto split: list.splits)
qed simp_all

lemma mask_assign_keeps:
  assumes "mask_assign es ms vs = Inr r" and "i < length es" and "\<not> ms ! i"
  shows "length r = length es \<and> r ! i = es ! i"
  using assms
  by (auto simp: mask_assign_def length_put_mask put_mask_keeps split: if_splits)

lemma boolean_index_update:
  "\<not> ms ! i \<Longrightarrow> boolean_index (xs[i := a]) ms = boolean_index xs ms"
proof (induction xs arbitrary: ms i)
  case Nil
  then show ?case by (simp add: boolean_index_def)
next
  case (Cons x xs)
  show ?case
  proof (cases ms)
    case Nil
    then show ?thesis by (simp add: boolean_index_def)
  next
    case (Cons m ms')
    with Cons.prems Cons.IH show ?thesis
      by (cases i) (auto simp: boolean_index_def)
  qed
qed

lemma zero_variance_estimate:
  assumes "i < length var" and "var ! i = 0"
    and "estimat_var loess mean var = Inr est"
  shows "length est = length var \<and> est ! i = 0 \<and> reg_std (est ! i) = 1
         \<and> estimat_var loess (mean[i := m]) var = Inr est"
proof -
  let ?nc = "map (\<lambda>v. v > 0) var"
  from assms(1,2) have nc: "\<not> ?nc ! i" by simp
  from assms(3) obtain fitted where
    f: "mask_assign (replicate (length var) 0) ?nc fitted = Inr est"
    by (auto simp: estimat_var_def Let_def split: sum.splits)
  from mask_assign_keeps [OF f _ nc] assms(1)
  have e: "length est = length var \<and> est ! i = 0"
    by simp
  have "boolean_index (mean[i := m]) ?nc = boolean_index mean ?nc"
    using nc by (rule boolean_index_update)
  then have "estimat_var loess (mean[i := m]) var = estimat_var loess mean var"
    by (simp add: estimat_var_def)
  with e assms(3) show ?thesis
    by (simp add: reg_std_def)
qed

text \<open>
  C7. For flavor \<open>seurat_v3\<close>, a gene whose variance within the batch is zero is excluded
  from the local-regression fit (the estimate does not depend on the gene's mean, and the
  gene is not among the points passed to \<open>loess\<close>) and receives an estimated variance of 0
  (so its regularized standard deviation is 1), while it remains present in the output of
  the batch: the normalized variances have one entry per gene, the gene's own computed
  with the regularized standard deviation 1.
\<close>

theorem zero_variance_gene:
  assumes "i < length var" and "var ! i = 0"
    and "estimat_var loess mean var = Inr est"
  shows "length est = length var \<and> est ! i = 0 \<and> reg_std (est ! i) = 1
    \<and> estimat_var loess (mean[i := m]) var = Inr est
    \<and> (length mean = length var \<and> length cols = length var
        \<longrightarrow> length (norm_gene_var N est mean (Dense cols)) = length var
          \<and> norm_gene_var N est mean (Dense cols) ! i
              = norm_gene_var_dense N 1 (mean ! i) (cols ! i))"
proof -
  from zero_variance_estimate [OF assms, of m]
  have e: "length est = length var" "est ! i = 0" "reg_std (est ! i) = 1"
      "estimat_var loess (mean[i := m]) var = Inr est"
    by blast+
  have "length (norm_gene_var N est mean (Dense cols)) = length var
          \<and> norm_gene_var N est mean (Dense cols) ! i
              = norm_gene_var_dense N 1 (mean ! i) (cols ! i)"
    if "length mean = length var \<and> length cols = length var"
    using that e(1,3) assms(1) by (simp add: norm_gene_var_def)
  with e show ?thesis
    by blast
qed

text \<open>
  The theorem at two genes with variances 0 and 2, for a fit that returns 5 everywhere.
\<close>

theorem zero_variance_gene_witness:
  "estimat_var (\<lambda>x y. Inr (map (\<lambda>_. 5) x)) ([1, 3][0 := 7]) [0, 2] = Inr [0, 5]
   \<and> norm_gene_var 2 [0, 5] [1, 3] (Dense [[1, 1], [2, 4]]) ! 0
       = norm_gene_var_dense 2 1 ([1, 3] ! 0) ([[1, 1], [2, 4]] ! 0)"
proof -
  let ?L = "\<lambda>(x::real list) (y::real list). Inr (map (\<lambda>_. 5::real) x) :: error + real list"
  have h1: "(0::nat) < length [0, 2::real]" by simp
  have h2: "[0, 2::real] ! 0 = 0" by simp
  have h3: "estimat_var ?L [1, 3] [0, 2] = Inr [0, 5]"
    by (simp add: estimat_var_def boolean_index_def mask_assign_def count_true_def)
  have h4: "length [1, 3::real] = length [0, 2::real]
            \<and> length [[1, 1], [2, 4::real]] = length [0, 2::real]"
    by simp
  from zero_variance_gene [OF h1 h2 h3, of 7 "[[1, 1], [2, 4]]" 2] h4 show ?thesis
    by blast
qed

subsection \<open>Flavor \<open>seurat_v3\<close>: clipping and the normalized variance\<close>

lemma clip_dense_min: "clip_dense c col = map (\<lambda>x. min x c) col"
  by (simp add: clip_dense_def min_def not_less)

lemma sum_sq_dev:
  "(\<Sum>x\<leftarrow>xs. (x - m)\<^sup>2) = (\<Sum>x\<leftarrow>xs. x\<^sup>2) - 2 * m * sum_list xs + real (length xs) * m\<^sup>2"
  for m :: real
  by (induction xs) (simp_all add: power2_eq_square algebra_simps)

lemma sum_sq_scaled:
  "(\<Sum>x\<leftarrow>xs. ((x - m) / r)\<^sup>2) = (\<Sum>x\<leftarrow>xs. (x - m)\<^sup>2) / r\<^sup>2"
  for m r :: real
  by (induction xs) (simp_all add: power_divide add_divide_distrib)

lemma reg_std_pos: "0 < reg_std e"
  by (simp add: reg_std_def)

lemma toarray_clip_sparse:
  "0 \<le> c \<Longrightarrow> toarray (clip_sparse c col) = clip_dense c (toarray col)"
  by (induction col) (auto simp: toarray_def clip_sparse_def clip_dense_def split: option.splits)

lemma norm_gene_var_clipped_gen:
  assumes "2 \<le> N" and "length col = N" and "0 < rs"
  shows "length (clip_dense (rs * sqrt (real N) + mean) col) = N
   \<and> (\<forall>i < N. clip_dense (rs * sqrt (real N) + mean) col ! i
                 = min (col ! i) (rs * sqrt (real N) + mean))
   \<and> norm_gene_var_dense N rs mean col
       = Num (Fin (1 / ((real N - 1) * rs\<^sup>2)
                  * (real N * mean\<^sup>2
                     + (\<Sum>x\<leftarrow>clip_dense (rs * sqrt (real N) + mean) col. x\<^sup>2)
                     - 2 * mean * sum_list (clip_dense (rs * sqrt (real N) + mean) col))))
   \<and> norm_gene_var_dense N rs mean col
       = Num (Fin ((\<Sum>x\<leftarrow>clip_dense (rs * sqrt (real N) + mean) col. ((x - mean) / rs)\<^sup>2)
                  / (real N - 1)))
   \<and> (0 \<le> mean \<longrightarrow>
        norm_gene_var_sparse N rs mean scol = norm_gene_var_dense N rs mean (toarray scol))"
proof -
  let ?c = "rs * sqrt (real N) + mean"
  let ?cl = "clip_dense ?c col"
  have len: "length ?cl = N"
    using assms(2) by (simp add: clip_dense_def)
  have nth: "\<forall>i < N. ?cl ! i = min (col ! i) ?c"
    using assms(2) by (simp add: clip_dense_min)
  have d: "(real N - 1) * rs\<^sup>2 \<noteq> 0"
    using assms(1,3) by simp
  have f1: "norm_gene_var_dense N rs mean col
       = Num (Fin (1 / ((real N - 1) * rs\<^sup>2)
                  * (real N * mean\<^sup>2 + (\<Sum>x\<leftarrow>?cl. x\<^sup>2) - 2 * mean * sum_list ?cl)))"
    using d by (simp add: norm_gene_var_dense_def norm_var_formula_def Let_def mult.commute)
  define B where "B = real N * mean\<^sup>2 + (\<Sum>x\<leftarrow>?cl. x\<^sup>2) - 2 * mean * sum_list ?cl"
  have "(\<Sum>x\<leftarrow>?cl. ((x - mean) / rs)\<^sup>2) = (\<Sum>x\<leftarrow>?cl. (x - mean)\<^sup>2) / rs\<^sup>2"
    by (rule sum_sq_scaled)
  also have "(\<Sum>x\<leftarrow>?cl. (x - mean)\<^sup>2) = B"
    using len by (simp add: sum_sq_dev B_def)
  finally have "(\<Sum>x\<leftarrow>?cl. ((x - mean) / rs)\<^sup>2) / (real N - 1) = B / rs\<^sup>2 / (real N - 1)"
    by simp
  also have "\<dots> = 1 / ((real N - 1) * rs\<^sup>2) * B"
    by (simp add: mult.commute)
  finally have z: "(\<Sum>x\<leftarrow>?cl. ((x - mean) / rs)\<^sup>2) / (real N - 1)
      = 1 / ((real N - 1) * rs\<^sup>2)
          * (real N * mean\<^sup>2 + (\<Sum>x\<leftarrow>?cl. x\<^sup>2) - 2 * mean * sum_list ?cl)"
    by (simp add: B_def)
  have f2: "norm_gene_var_dense N rs mean col
       = Num (Fin ((\<Sum>x\<leftarrow>?cl. ((x - mean) / rs)\<^sup>2) / (real N - 1)))"
    using f1 z by simp
  have sp: "norm_gene_var_sparse N rs mean scol = norm_gene_var_dense N rs mean (toarray scol)"
    if "0 \<le> mean"
  proof -
    have "0 \<le> ?c"
      using that assms(3) by simp
    then show ?thesis
      by (simp add: norm_gene_var_sparse_def norm_gene_var_dense_def toarray_clip_sparse)
  qed
  from len nth f1 f2 sp show ?thesis
    by blast
qed

text \<open>
  C4. For flavor \<open>seurat_v3\<close>, within a batch of \<open>N \<ge> 2\<close> cells every count of a gene is
  clipped at \<open>reg_std * sqrt(N) + mean\<close>, and the normalized variance of the gene equals
  \<open>(1 / ((N - 1) * reg_std^2)) * (N * mean^2 + sum of squared clipped counts
  - 2 * mean * sum of clipped counts)\<close>, which is the sum of the squared z-scores
  \<open>((clipped - mean) / reg_std)^2\<close> over \<open>N - 1\<close>, obtained from the two sums without
  building the z-scored matrix. A sparse matrix gives the same as its dense form when
  the mean is not negative.
\<close>

theorem norm_gene_var_clipped:
  assumes "2 \<le> N" and "length col = N"
  shows "length (clip_dense (reg_std e * sqrt (real N) + mean) col) = N
   \<and> (\<forall>i < N. clip_dense (reg_std e * sqrt (real N) + mean) col ! i
                 = min (col ! i) (reg_std e * sqrt (real N) + mean))
   \<and> norm_gene_var_dense N (reg_std e) mean col
       = Num (Fin (1 / ((real N - 1) * (reg_std e)\<^sup>2)
                  * (real N * mean\<^sup>2
                     + (\<Sum>x\<leftarrow>clip_dense (reg_std e * sqrt (real N) + mean) col. x\<^sup>2)
                     - 2 * mean * sum_list (clip_dense (reg_std e * sqrt (real N) + mean) col))))
   \<and> norm_gene_var_dense N (reg_std e) mean col
       = Num (Fin ((\<Sum>x\<leftarrow>clip_dense (reg_std e * sqrt (real N) + mean) col.
                      ((x - mean) / reg_std e)\<^sup>2)
                  / (real N - 1)))
   \<and> (0 \<le> mean \<longrightarrow>
        norm_gene_var_sparse N (reg_std e) mean scol
          = norm_gene_var_dense N (reg_std e) mean (toarray scol))"
  using assms reg_std_pos [of e] by (rule norm_gene_var_clipped_gen)

text \<open>
  The theorem at four cells with counts \<open>0, 0, 0, 12\<close>, mean 3 and estimate 0: the clip
  value is 5 and the normalized variance \<open>31/3\<close>.
\<close>

theorem norm_gene_var_clipped_witness:
  "norm_gene_var_dense 4 (reg_std 0) 3 [0, 0, 0, 12] = Num (Fin (31 / 3))
   \<and> clip_dense (reg_std 0 * sqrt (real 4) + 3) [0, 0, 0, 12] ! 3 = 5"
proof -
  have h1: "2 \<le> (4::nat)" by simp
  have h2: "length [0, 0, 0, 12::real] = 4" by simp
  have r: "reg_std 0 = 1"
    by (simp add: reg_std_def)
  have c: "clip_dense (reg_std 0 * sqrt (real 4) + 3) [0, 0, 0, 12] = [0, 0, 0, 5]"
    by (simp add: clip_dense_def r)
  from norm_gene_var_clipped [OF h1 h2, of 0 3] show ?thesis
    unfolding c by (simp add: r)
qed

subsection \<open>Flavor \<open>seurat_v3\<close>: ranks of a single batch\<close>















end
